theory Spec2Isabelle
  imports Main "HOL-Library.Sublist"
begin

section \<open>Data model of parser.py\<close>

text \<open>
  Parser objects live in a store, because a grammar may be cyclic (a combinator may list
  itself among its children) and because \<open>define\<close> mutates a combinator after it has
  been handed out. A reference is the index of the object in the store.

  A compiled pattern (\<open>re.compile(pattern)\<close>) is represented by its \<open>match\<close> method
  reduced to what \<open>RegexParser.parse\<close> reads from it: \<open>None\<close> when there is no match
  anchored at the start of the text, otherwise \<open>match.end()\<close>.
\<close>

type_synonym ref = nat

type_synonym pattern = "string \<Rightarrow> nat option"

datatype parser =
    LiteralParser string
  | RegexParser pattern
  | SequenceParser "ref list"
  | GroupParser "ref list"

type_synonym heap = "parser list"

text \<open>
  \<open>ParseResult(parser, parsed)\<close>: \<open>parsed\<close> is a \<open>str\<close>, a list of results, or
  \<open>None\<close> (only in the sentinel); \<open>parser\<close> is \<open>None\<close> only in the sentinel.
\<close>

datatype 'r payload = NoPayload | Str string | Results "'r list"

datatype parse_result = ParseResult (parser: "ref option") (parsed: "parse_result payload")

definition FAILED :: parse_result where
  "FAILED = ParseResult None NoPayload"

datatype error = NotImplementedError | AttributeError

text \<open>
  The property \<open>length\<close>. The comparison \<open>self == ParseResult.FAILED\<close> is object
  identity in the source; every result built by a parser carries a parser, so on the
  results of \<open>parse\<close> it coincides with equality of the two fields.
\<close>

definition length_pr :: "parse_result \<Rightarrow> error + nat" where
  "length_pr r =
     (if r = FAILED then Inr 0
      else case parsed r of
             Str s \<Rightarrow> Inr (length s)
           | _ \<Rightarrow> Inl NotImplementedError)"

section \<open>Leaf parsers\<close>

definition literal_parse :: "ref \<Rightarrow> string \<Rightarrow> string \<Rightarrow> bool \<Rightarrow> parse_result" where
  "literal_parse self literal text partially =
     (if \<not> prefix literal text then FAILED
      else if \<not> partially \<and> text \<noteq> literal then FAILED
      else ParseResult (Some self) (Str literal))"

definition regex_parse :: "ref \<Rightarrow> pattern \<Rightarrow> string \<Rightarrow> bool \<Rightarrow> parse_result" where
  "regex_parse self pat text partially =
     (case pat text of
        Some e \<Rightarrow>
          if partially then ParseResult (Some self) (Str (take e text))
          else if text \<noteq> take e text then FAILED
          else ParseResult (Some self) (Str text)
      | None \<Rightarrow> FAILED)"

section \<open>Combinators and the recursive descent\<close>

text \<open>
  The tail of \<open>SequenceParser.parse\<close> after its loop, reached when the children are
  exhausted and by \<open>break\<close>.
\<close>

definition sequence_finish :: "ref \<Rightarrow> string \<Rightarrow> bool \<Rightarrow> parse_result list \<Rightarrow> parse_result" where
  "sequence_finish self text partially results =
     (if \<not> partially \<and> length text > 0 then FAILED
      else ParseResult (Some self) (Results results))"

text \<open>
  \<open>parse\<close> dispatches on the class of the object. The first argument bounds the depth of
  nested \<open>parse\<close> calls: \<open>None\<close> means the call did not return within that depth (a
  grammar that recurses without consuming input never returns). \<open>Inl\<close> is a raised
  exception, which no parser catches. A child that is not a parser object has no
  \<open>parse\<close> attribute.
\<close>

fun parse :: "nat \<Rightarrow> heap \<Rightarrow> ref \<Rightarrow> string \<Rightarrow> bool \<Rightarrow> (error + parse_result) option"
  and sequence_loop :: "nat \<Rightarrow> heap \<Rightarrow> ref \<Rightarrow> ref list \<Rightarrow> string \<Rightarrow> bool \<Rightarrow> parse_result list
                          \<Rightarrow> (error + parse_result) option"
  and group_loop :: "nat \<Rightarrow> heap \<Rightarrow> ref list \<Rightarrow> string \<Rightarrow> bool \<Rightarrow> (error + parse_result) option"
where
  "parse 0 h self text partially = None"
| "parse (Suc n) h self text partially =
     (if self \<ge> length h then Some (Inl AttributeError)
      else case h ! self of
             LiteralParser literal \<Rightarrow> Some (Inr (literal_parse self literal text partially))
           | RegexParser pat \<Rightarrow> Some (Inr (regex_parse self pat text partially))
           | SequenceParser ps \<Rightarrow> sequence_loop n h self ps text partially []
           | GroupParser ps \<Rightarrow> group_loop n h ps text partially)"
| "sequence_loop n h self [] text partially results =
     Some (Inr (sequence_finish self text partially results))"
| "sequence_loop n h self (p # ps) text partially results =
     (case parse n h p text True of
        None \<Rightarrow> None
      | Some (Inl e) \<Rightarrow> Some (Inl e)
      | Some (Inr result) \<Rightarrow>
          if result = FAILED then
            (if \<not> partially then Some (Inr FAILED)
             else Some (Inr (sequence_finish self text partially results)))
          else
            (case length_pr result of
               Inl e \<Rightarrow> Some (Inl e)
             | Inr l \<Rightarrow> sequence_loop n h self ps (drop l text) partially (results @ [result])))"
| "group_loop n h [] text partially = Some (Inr FAILED)"
| "group_loop n h (p # ps) text partially =
     (case parse n h p text partially of
        None \<Rightarrow> None
      | Some (Inl e) \<Rightarrow> Some (Inl e)
      | Some (Inr result) \<Rightarrow>
          if result \<noteq> FAILED then Some (Inr result)
          else group_loop n h ps text partially)"

section \<open>Construction: allocation, \<open>define\<close> and \<open>|\<close>\<close>

definition new_parser :: "heap \<Rightarrow> parser \<Rightarrow> heap \<times> ref" where
  "new_parser h node = (h @ [node], length h)"

text \<open>\<open>CombinedParser.__init__\<close> sets \<open>self.parsers = ()\<close>.\<close>

definition new_SequenceParser :: "heap \<Rightarrow> heap \<times> ref" where
  "new_SequenceParser h = new_parser h (SequenceParser [])"

definition new_GroupParser :: "heap \<Rightarrow> heap \<times> ref" where
  "new_GroupParser h = new_parser h (GroupParser [])"

definition is_GroupParser :: "heap \<Rightarrow> ref \<Rightarrow> bool" where
  "is_GroupParser h p = (p < length h \<and> (case h ! p of GroupParser _ \<Rightarrow> True | _ \<Rightarrow> False))"

definition is_SequenceParser :: "heap \<Rightarrow> ref \<Rightarrow> bool" where
  "is_SequenceParser h p = (p < length h \<and> (case h ! p of SequenceParser _ \<Rightarrow> True | _ \<Rightarrow> False))"

definition parsers_of :: "heap \<Rightarrow> ref \<Rightarrow> ref list" where
  "parsers_of h p =
     (if p < length h then
        (case h ! p of SequenceParser ps \<Rightarrow> ps | GroupParser ps \<Rightarrow> ps | _ \<Rightarrow> [])
      else [])"

text \<open>\<open>isinstance(x, type(self))\<close> for a combinator \<open>self\<close>: the same concrete class.\<close>

definition isinstance_type :: "heap \<Rightarrow> ref \<Rightarrow> ref \<Rightarrow> bool" where
  "isinstance_type h x self =
     ((is_GroupParser h self \<and> is_GroupParser h x) \<or>
      (is_SequenceParser h self \<and> is_SequenceParser h x))"

definition set_parsers :: "parser \<Rightarrow> ref list \<Rightarrow> parser" where
  "set_parsers node ps =
     (case node of
        SequenceParser _ \<Rightarrow> SequenceParser ps
      | GroupParser _ \<Rightarrow> GroupParser ps
      | other \<Rightarrow> other)"

text \<open>
  \<open>CombinedParser.define\<close> (named \<open>define_parsers\<close> here, \<open>define\<close> being a
  keyword); only combinators have the method. It returns \<open>self\<close>, so the model
  returns the updated store.
\<close>

definition define_parsers :: "heap \<Rightarrow> ref \<Rightarrow> ref list \<Rightarrow> heap" where
  "define_parsers h self parsers =
     (let parsers' =
            (if length parsers = 1 \<and> isinstance_type h (hd parsers) self
             then parsers_of h (hd parsers) else parsers)
      in h[self := set_parsers (h ! self) parsers'])"

text \<open>\<open>Parser.__or__\<close>: allocates a fresh \<open>GroupParser\<close> and defines it.\<close>

definition or_parser :: "heap \<Rightarrow> ref \<Rightarrow> ref \<Rightarrow> heap \<times> ref" where
  "or_parser h self other =
     (let (h', g) = new_GroupParser h in
      if is_GroupParser h self then
        (if is_GroupParser h other
         then (define_parsers h' g (parsers_of h self @ parsers_of h other), g)
         else (define_parsers h' g (parsers_of h self @ [other]), g))
      else if is_GroupParser h other
        then (define_parsers h' g (self # parsers_of h other), g)
      else (define_parsers h' g [self, other], g))"

text \<open>
  The compiled pattern \<open>re.compile(r"[0-9]+")\<close> of the source's example grammar: a greedy
  run of ASCII digits, at least one.
\<close>

definition is_digit :: "char \<Rightarrow> bool" where
  "is_digit c = (c \<in> set ''0123456789'')"

definition digits :: pattern where
  "digits text =
     (let n = length (takeWhile is_digit text) in if n = 0 then None else Some n)"

text \<open>
  The grammar of the recursion scenario, built through the construction interface:
  \<open>digits = RegexParser(r"[0-9]+")\<close>, \<open>plus = LiteralParser("+")\<close>,
  \<open>expr = GroupParser()\<close>, \<open>seq = SequenceParser()\<close>,
  \<open>seq.define(digits, plus, expr)\<close>, \<open>expr.define(seq, digits)\<close>. The result is the
  store and the reference of \<open>expr\<close>.
\<close>

definition expr_grammar :: "heap \<times> ref" where
  "expr_grammar =
     (let (h0, d) = new_parser [] (RegexParser digits);
          (h1, plus) = new_parser h0 (LiteralParser ''+'');
          (h2, expr) = new_GroupParser h1;
          (h3, seq) = new_SequenceParser h2;
          h4 = define_parsers h3 seq [d, plus, expr];
          h5 = define_parsers h4 expr [seq, d]
      in (h5, expr))"


section \<open>Auxiliary facts\<close>

lemma take_eq_self: "(text = take e text) = (length text \<le> e)"
  by (metis take_all_iff)

lemma expr_grammar_eq:
  "expr_grammar =
     ([RegexParser digits, LiteralParser ''+'', GroupParser [3, 0], SequenceParser [0, 1, 2]], 2)"
  by (simp add: expr_grammar_def new_parser_def new_GroupParser_def new_SequenceParser_def
      define_parsers_def isinstance_type_def is_GroupParser_def is_SequenceParser_def
      set_parsers_def)

subsection \<open>A result obtained within some depth is obtained within any larger depth\<close>

lemma sequence_loop_mono:
  assumes "\<And>p t b y. parse n h p t b = Some y \<Longrightarrow> parse m h p t b = Some y"
  shows "sequence_loop n h self ps text partially results = Some x
           \<Longrightarrow> sequence_loop m h self ps text partially results = Some x"
proof (induction ps arbitrary: "text" results)
  case Nil
  then show ?case by simp
next
  case (Cons p ps)
  from Cons.prems obtain y where y: "parse n h p text True = Some y"
    by (auto split: option.splits)
  then have y': "parse m h p text True = Some y" by (rule assms)
  show ?case using Cons.prems Cons.IH y y'
    by (auto simp del: parse.simps split: sum.splits if_splits)
qed

lemma group_loop_mono:
  assumes "\<And>p t b y. parse n h p t b = Some y \<Longrightarrow> parse m h p t b = Some y"
  shows "group_loop n h ps text partially = Some x
           \<Longrightarrow> group_loop m h ps text partially = Some x"
proof (induction ps)
  case Nil
  then show ?case by simp
next
  case (Cons p ps)
  from Cons.prems obtain y where y: "parse n h p text partially = Some y"
    by (auto split: option.splits)
  then have y': "parse m h p text partially = Some y" by (rule assms)
  show ?case using Cons.prems Cons.IH y y'
    by (auto simp del: parse.simps split: sum.splits if_splits)
qed

lemma parse_fuel_Suc:
  "parse n h self text partially = Some x \<Longrightarrow> parse (Suc n) h self text partially = Some x"
proof (induction n arbitrary: self "text" partially x)
  case 0
  then show ?case by simp
next
  case (Suc n)
  have step: "\<And>p t b y. parse n h p t b = Some y \<Longrightarrow> parse (Suc n) h p t b = Some y"
    by (rule Suc.IH)
  show ?case
  proof (cases "self \<ge> length h")
    case True
    with Suc.prems show ?thesis by simp
  next
    case False
    show ?thesis
    proof (cases "h ! self")
      case (LiteralParser lit)
      with False Suc.prems show ?thesis by simp
    next
      case (RegexParser pat)
      with False Suc.prems show ?thesis by simp
    next
      case (SequenceParser ps)
      with False Suc.prems
      have "sequence_loop n h self ps text partially [] = Some x" by simp
      from sequence_loop_mono[OF step this] SequenceParser False
      show ?thesis by simp
    next
      case (GroupParser ps)
      with False Suc.prems
      have "group_loop n h ps text partially = Some x" by simp
      from group_loop_mono[OF step this] GroupParser False
      show ?thesis by simp
    qed
  qed
qed

lemma parse_fuel_add:
  "parse n h self text partially = Some x \<Longrightarrow> parse (n + k) h self text partially = Some x"
  by (induction k) (simp_all add: parse_fuel_Suc del: parse.simps)

subsection \<open>The two loops\<close>

lemma sequence_loop_partial:
  "sequence_loop n h self ps text True results = Some (Inr r)
     \<Longrightarrow> \<exists>rs. r = ParseResult (Some self) (Results rs)"
proof (induction ps arbitrary: "text" results)
  case Nil
  then show ?case by (auto simp: sequence_finish_def)
next
  case (Cons p ps)
  then show ?case
    by (fastforce simp: sequence_finish_def split: option.splits sum.splits if_splits)
qed


lemma group_loop_failed_iff:
  "group_loop n h ps text partially = Some (Inr FAILED)
     \<longleftrightarrow> (\<forall>p \<in> set ps. parse n h p text partially = Some (Inr FAILED))"
  by (induction ps) (auto split: option.splits sum.splits)

lemma group_loop_first:
  "\<lbrakk>\<forall>p \<in> set pre. parse n h p text partially = Some (Inr FAILED);
    parse n h p text partially = Some (Inr r); r \<noteq> FAILED\<rbrakk>
   \<Longrightarrow> group_loop n h (pre @ p # post) text partially = Some (Inr r)"
  by (induction pre) auto


section \<open>The claims\<close>

text \<open>
  C1. \<open>length\<close> is the number of characters for a leaf success, the sum of the children's
  lengths for a combinator success (0 for no children) and 0 for the sentinel. The leaf and
  sentinel parts hold; on every combinator success the code raises
  \<open>NotImplementedError\<close>, also on the empty child list and on the result that
  \<open>SequenceParser().define(LiteralParser("a")).parse("a")\<close> returns.
\<close>

theorem length_combinator_raises:
  "length_pr FAILED = Inr 0
 \<and> length_pr (ParseResult (Some p) (Str s)) = Inr (length s)
 \<and> length_pr (ParseResult (Some p) (Results rs)) = Inl NotImplementedError
 \<and> parse 2 [LiteralParser ''a'', SequenceParser [0]] 1 ''a'' False
      = Some (Inr (ParseResult (Some 1) (Results [ParseResult (Some 0) (Str ''a'')])))
 \<and> length_pr (ParseResult (Some 1) (Results [ParseResult (Some 0) (Str ''a'')]))
      = Inl NotImplementedError"
  by (simp add: length_pr_def FAILED_def eval_nat_numeral literal_parse_def sequence_finish_def)

text \<open>
  C2. \<open>Expr = Alternative(Sequence(Digits, Literal("+"), Expr), Digits)\<close> parsing
  \<open>"1+2+3"\<close> in total mode terminates with a success of length 5. On the code the call
  does terminate, at call depth 7, but by raising \<open>NotImplementedError\<close>: the inner
  \<open>Expr\<close> returns a sequence result and the enclosing sequence reads its \<open>length\<close>.
\<close>

theorem expr_parse_raises:
  "(case expr_grammar of (h, expr) \<Rightarrow>
      parse (7 + n) h expr ''1+2+3'' False = Some (Inl NotImplementedError))"
proof -
  have "parse 7 [RegexParser digits, LiteralParser ''+'', GroupParser [3, 0],
                 SequenceParser [0, 1, 2]] 2 ''1+2+3'' False = Some (Inl NotImplementedError)"
    by (simp add: eval_nat_numeral literal_parse_def regex_parse_def digits_def is_digit_def
        FAILED_def length_pr_def sequence_finish_def)
  from parse_fuel_add[OF this, of n] show ?thesis
    by (simp only: expr_grammar_eq prod.case)
qed



text \<open>
  C4. A \<open>GroupParser\<close> tries its children in order with the caller's mode flag. It returns
  the sentinel exactly when every child returns the sentinel, and when child \<open>k\<close> is the
  first that succeeds it returns that child's result unchanged (the child's parser
  reference and payload), whatever the later children would return.
\<close>

theorem group_first_match:
  assumes "self < length h" and "h ! self = GroupParser ps"
  shows "(parse (Suc n) h self text partially = Some (Inr FAILED)
            \<longleftrightarrow> (\<forall>p \<in> set ps. parse n h p text partially = Some (Inr FAILED)))
       \<and> (\<forall>k r. k < length ps
              \<and> (\<forall>i < k. parse n h (ps ! i) text partially = Some (Inr FAILED))
              \<and> parse n h (ps ! k) text partially = Some (Inr r) \<and> r \<noteq> FAILED
            \<longrightarrow> parse (Suc n) h self text partially = Some (Inr r))"
proof (intro conjI allI impI)
  show "parse (Suc n) h self text partially = Some (Inr FAILED)
            \<longleftrightarrow> (\<forall>p \<in> set ps. parse n h p text partially = Some (Inr FAILED))"
    using assms by (simp add: group_loop_failed_iff)
next
  fix k r
  assume a: "k < length ps
              \<and> (\<forall>i < k. parse n h (ps ! i) text partially = Some (Inr FAILED))
              \<and> parse n h (ps ! k) text partially = Some (Inr r) \<and> r \<noteq> FAILED"
  then have k: "k < length ps" by simp
  have split: "ps = take k ps @ ps ! k # drop (Suc k) ps"
    using k by (simp add: id_take_nth_drop)
  have pre: "\<forall>p \<in> set (take k ps). parse n h p text partially = Some (Inr FAILED)"
  proof
    fix p assume "p \<in> set (take k ps)"
    then obtain i where "i < length (take k ps)" "take k ps ! i = p"
      by (auto simp: in_set_conv_nth)
    with a k show "parse n h p text partially = Some (Inr FAILED)" by auto
  qed
  have "group_loop n h (take k ps @ ps ! k # drop (Suc k) ps) text partially = Some (Inr r)"
    using group_loop_first[OF pre] a by blast
  with split have "group_loop n h ps text partially = Some (Inr r)" by simp
  with assms show "parse (Suc n) h self text partially = Some (Inr r)" by simp
qed

theorem group_first_match_witness:
  "(2::nat) < length [LiteralParser ''a'', LiteralParser ''ab'', GroupParser [0, 1]]
 \<and> [LiteralParser ''a'', LiteralParser ''ab'', GroupParser [0, 1]] ! 2 = GroupParser [0, 1]
 \<and> parse 1 [LiteralParser ''a'', LiteralParser ''ab'', GroupParser [0, 1]] 0 ''ab'' True
      = Some (Inr (ParseResult (Some 0) (Str ''a'')))
 \<and> parse 1 [LiteralParser ''a'', LiteralParser ''ab'', GroupParser [0, 1]] 1 ''ab'' True
      = Some (Inr (ParseResult (Some 1) (Str ''ab'')))
 \<and> ParseResult (Some 0) (Str ''a'') \<noteq> FAILED
 \<and> parse (Suc 1) [LiteralParser ''a'', LiteralParser ''ab'', GroupParser [0, 1]] 2 ''ab'' True
      = Some (Inr (ParseResult (Some 0) (Str ''a'')))
 \<and> parse 1 [LiteralParser ''a'', LiteralParser ''ab'', GroupParser [0, 1]] 0 ''x'' True
      = Some (Inr FAILED)
 \<and> parse 1 [LiteralParser ''a'', LiteralParser ''ab'', GroupParser [0, 1]] 1 ''x'' True
      = Some (Inr FAILED)
 \<and> parse (Suc 1) [LiteralParser ''a'', LiteralParser ''ab'', GroupParser [0, 1]] 2 ''x'' True
      = Some (Inr FAILED)"
proof -
  let ?h = "[LiteralParser ''a'', LiteralParser ''ab'', GroupParser [0, 1]]"
  have a: "(2::nat) < length ?h" by simp
  have b: "?h ! 2 = GroupParser [0, 1]" by simp
  have c0: "parse 1 ?h 0 ''ab'' True = Some (Inr (ParseResult (Some 0) (Str ''a'')))"
    by (simp add: literal_parse_def)
  have c1: "parse 1 ?h 1 ''ab'' True = Some (Inr (ParseResult (Some 1) (Str ''ab'')))"
    by (simp add: literal_parse_def)
  have ne: "ParseResult (Some 0) (Str ''a'') \<noteq> FAILED" by (simp add: FAILED_def)
  have f0: "parse 1 ?h 0 ''x'' True = Some (Inr FAILED)"
    by (simp add: literal_parse_def)
  have f1: "parse 1 ?h 1 ''x'' True = Some (Inr FAILED)"
    by (simp add: literal_parse_def)
  have f: "\<forall>p \<in> set [0, 1]. parse 1 ?h p ''x'' True = Some (Inr FAILED)"
    using f0 f1 by simp
  have first: "(0::nat) < length [0::nat, 1]
      \<and> (\<forall>i < (0::nat). parse 1 ?h ([0, 1] ! i) ''ab'' True = Some (Inr FAILED))
      \<and> parse 1 ?h ([0, 1] ! 0) ''ab'' True = Some (Inr (ParseResult (Some 0) (Str ''a'')))
      \<and> ParseResult (Some 0) (Str ''a'') \<noteq> FAILED"
    using c0 ne by simp
  from group_first_match[OF a b, of 1 "''ab''" True] first
  have g: "parse (Suc 1) ?h 2 ''ab'' True = Some (Inr (ParseResult (Some 0) (Str ''a'')))"
    by blast
  from group_first_match[OF a b, of 1 "''x''" True] f
  have g': "parse (Suc 1) ?h 2 ''x'' True = Some (Inr FAILED)"
    by blast
  from a b c0 c1 ne g f0 f1 g' show ?thesis by blast
qed

text \<open>
  C5. For parsers \<open>p1\<close>, \<open>p2\<close>, \<open>p3\<close> none of which is a \<open>GroupParser\<close>, both
  \<open>(p1 | p2) | p3\<close> and \<open>p1 | (p2 | p3)\<close> are a \<open>GroupParser\<close> whose children are
  exactly \<open>[p1, p2, p3]\<close>; the objects that existed before are unchanged.
\<close>

theorem or_flattening:
  assumes "p1 < length h" and "p2 < length h" and "p3 < length h"
    and "\<not> is_GroupParser h p1" and "\<not> is_GroupParser h p2" and "\<not> is_GroupParser h p3"
  shows "(case or_parser h p1 p2 of (h1, g12) \<Rightarrow>
            case or_parser h1 g12 p3 of (h2, g) \<Rightarrow>
              g < length h2 \<and> h2 ! g = GroupParser [p1, p2, p3] \<and> take (length h) h2 = h)
       \<and> (case or_parser h p2 p3 of (h1, g23) \<Rightarrow>
            case or_parser h1 p1 g23 of (h2, g) \<Rightarrow>
              g < length h2 \<and> h2 ! g = GroupParser [p1, p2, p3] \<and> take (length h) h2 = h)"
  using assms
  by (auto simp: or_parser_def new_GroupParser_def new_parser_def define_parsers_def
      is_GroupParser_def is_SequenceParser_def isinstance_type_def parsers_of_def set_parsers_def
      nth_append Let_def split: parser.splits)

theorem or_flattening_witness:
  "(0::nat) < length [LiteralParser ''a'', LiteralParser ''b'', SequenceParser []]
 \<and> (1::nat) < length [LiteralParser ''a'', LiteralParser ''b'', SequenceParser []]
 \<and> (2::nat) < length [LiteralParser ''a'', LiteralParser ''b'', SequenceParser []]
 \<and> \<not> is_GroupParser [LiteralParser ''a'', LiteralParser ''b'', SequenceParser []] 0
 \<and> \<not> is_GroupParser [LiteralParser ''a'', LiteralParser ''b'', SequenceParser []] 1
 \<and> \<not> is_GroupParser [LiteralParser ''a'', LiteralParser ''b'', SequenceParser []] 2
 \<and> (case or_parser [LiteralParser ''a'', LiteralParser ''b'', SequenceParser []] 0 1 of
      (h1, g12) \<Rightarrow>
        case or_parser h1 g12 2 of (h2, g) \<Rightarrow> h2 ! g = GroupParser [0, 1, 2])
 \<and> (case or_parser [LiteralParser ''a'', LiteralParser ''b'', SequenceParser []] 1 2 of
      (h1, g23) \<Rightarrow>
        case or_parser h1 0 g23 of (h2, g) \<Rightarrow> h2 ! g = GroupParser [0, 1, 2])"
proof -
  let ?h = "[LiteralParser ''a'', LiteralParser ''b'', SequenceParser []]"
  have l0: "(0::nat) < length ?h" and l1: "(1::nat) < length ?h" and l2: "(2::nat) < length ?h"
    by simp_all
  have n0: "\<not> is_GroupParser ?h 0" and n1: "\<not> is_GroupParser ?h 1"
    and n2: "\<not> is_GroupParser ?h 2"
    by (simp_all add: is_GroupParser_def)
  from or_flattening[OF l0 l1 l2 n0 n1 n2] l0 l1 l2 n0 n1 n2
  show ?thesis by (auto split: prod.splits)
qed

text \<open>
  C6. For a compiled pattern \<open>pat\<close>: a partial call succeeds exactly when the pattern
  matches at the start of the text, with the matched prefix as payload and its length as
  length; a total call succeeds exactly when that match spans the whole text, and returns
  the sentinel otherwise, also when a proper prefix matched.
\<close>

theorem pattern_anchoring:
  assumes "self < length h" and "h ! self = RegexParser pat"
  shows "((\<exists>r. parse (Suc n) h self text True = Some (Inr r) \<and> r \<noteq> FAILED)
             \<longleftrightarrow> (\<exists>e. pat text = Some e))
       \<and> (\<forall>e. pat text = Some e \<longrightarrow>
             parse (Suc n) h self text True
               = Some (Inr (ParseResult (Some self) (Str (take e text))))
           \<and> length_pr (ParseResult (Some self) (Str (take e text)))
               = Inr (length (take e text)))
       \<and> ((\<exists>r. parse (Suc n) h self text False = Some (Inr r) \<and> r \<noteq> FAILED)
             \<longleftrightarrow> (\<exists>e. pat text = Some e \<and> take e text = text))
       \<and> ((\<exists>e. pat text = Some e \<and> take e text = text) \<longrightarrow>
             parse (Suc n) h self text False = Some (Inr (ParseResult (Some self) (Str text))))
       \<and> (\<not> (\<exists>e. pat text = Some e \<and> take e text = text) \<longrightarrow>
             parse (Suc n) h self text False = Some (Inr FAILED))"
  using assms
  by (auto simp: regex_parse_def length_pr_def FAILED_def take_eq_self split: option.splits)

theorem pattern_anchoring_witness:
  "(0::nat) < length [RegexParser digits]
 \<and> [RegexParser digits] ! 0 = RegexParser digits
 \<and> digits ''12a'' = Some 2
 \<and> parse (Suc 0) [RegexParser digits] 0 ''12a'' True
      = Some (Inr (ParseResult (Some 0) (Str ''12'')))
 \<and> length_pr (ParseResult (Some 0) (Str ''12'')) = Inr 2
 \<and> parse (Suc 0) [RegexParser digits] 0 ''12a'' False = Some (Inr FAILED)
 \<and> digits ''12'' = Some 2
 \<and> parse (Suc 0) [RegexParser digits] 0 ''12'' False
      = Some (Inr (ParseResult (Some 0) (Str ''12'')))"
proof -
  have a: "(0::nat) < length [RegexParser digits]" by simp
  have b: "[RegexParser digits] ! 0 = RegexParser digits" by simp
  have d1: "digits ''12a'' = Some 2" by (simp add: digits_def is_digit_def)
  have d2: "digits ''12'' = Some 2" by (simp add: digits_def is_digit_def)
  have no: "\<not> (\<exists>e. digits ''12a'' = Some e \<and> take e ''12a'' = ''12a'')"
    using d1 by simp
  have yes: "\<exists>e. digits ''12'' = Some e \<and> take e ''12'' = ''12''"
    using d2 by simp
  from pattern_anchoring[OF a b, of 0 "''12a''"] d1 no
  have p1: "parse (Suc 0) [RegexParser digits] 0 ''12a'' True
              = Some (Inr (ParseResult (Some 0) (Str (take 2 ''12a''))))"
    and p2: "length_pr (ParseResult (Some 0) (Str (take 2 ''12a''))) = Inr (length (take 2 ''12a''))"
    and p3: "parse (Suc 0) [RegexParser digits] 0 ''12a'' False = Some (Inr FAILED)"
    by blast+
  from pattern_anchoring[OF a b, of 0 "''12''"] yes
  have p4: "parse (Suc 0) [RegexParser digits] 0 ''12'' False
              = Some (Inr (ParseResult (Some 0) (Str ''12'')))"
    by blast
  from a b d1 d2 p1 p2 p3 p4 show ?thesis by simp
qed

text \<open>
  C7. \<open>LiteralParser(s).parse(s)\<close> succeeds with length \<open>len(s)\<close>; for a non-empty
  \<open>t\<close>, \<open>parse(s + t)\<close> returns the sentinel in total mode and succeeds with length
  \<open>len(s)\<close> in partial mode; every success of the parser, on any text and in either
  mode, has the literal itself as payload.
\<close>

theorem literal_exactness:
  assumes "self < length h" and "h ! self = LiteralParser s"
  shows "parse (Suc n) h self s False = Some (Inr (ParseResult (Some self) (Str s)))
       \<and> length_pr (ParseResult (Some self) (Str s)) = Inr (length s)
       \<and> (t \<noteq> [] \<longrightarrow>
            parse (Suc n) h self (s @ t) False = Some (Inr FAILED)
          \<and> parse (Suc n) h self (s @ t) True = Some (Inr (ParseResult (Some self) (Str s))))
       \<and> (parse (Suc n) h self text partially = Some (Inr r) \<and> r \<noteq> FAILED
            \<longrightarrow> r = ParseResult (Some self) (Str s))"
  using assms by (auto simp: literal_parse_def length_pr_def FAILED_def)

theorem literal_exactness_witness:
  "(0::nat) < length [LiteralParser ''ab'']
 \<and> [LiteralParser ''ab''] ! 0 = LiteralParser ''ab''
 \<and> ''c'' \<noteq> []
 \<and> parse (Suc 0) [LiteralParser ''ab''] 0 ''ab'' False
      = Some (Inr (ParseResult (Some 0) (Str ''ab'')))
 \<and> length_pr (ParseResult (Some 0) (Str ''ab'')) = Inr (length ''ab'')
 \<and> parse (Suc 0) [LiteralParser ''ab''] 0 (''ab'' @ ''c'') False = Some (Inr FAILED)
 \<and> parse (Suc 0) [LiteralParser ''ab''] 0 (''ab'' @ ''c'') True
      = Some (Inr (ParseResult (Some 0) (Str ''ab'')))"
proof -
  have a: "(0::nat) < length [LiteralParser ''ab'']" by simp
  have b: "[LiteralParser ''ab''] ! 0 = LiteralParser ''ab''" by simp
  have c: "''c'' \<noteq> []" by simp
  from literal_exactness[OF a b, of 0 "''c''"] a b c show ?thesis by blast
qed



text \<open>
  C9. Whatever a \<open>SequenceParser\<close> returns in partial mode is a success of that parser
  with a list payload, never the sentinel, also when its first child fails.
\<close>

theorem sequence_partial_never_fails:
  assumes "self < length h" and "h ! self = SequenceParser ps"
    and "parse n h self text True = Some (Inr r)"
  shows "r \<noteq> FAILED \<and> (\<exists>rs. r = ParseResult (Some self) (Results rs))"
proof (cases n)
  case 0
  with assms show ?thesis by simp
next
  case (Suc m)
  with assms have "sequence_loop m h self ps text True [] = Some (Inr r)" by simp
  from sequence_loop_partial[OF this] show ?thesis by (auto simp: FAILED_def)
qed

theorem sequence_partial_never_fails_witness:
  "(1::nat) < length [LiteralParser ''a'', SequenceParser [0]]
 \<and> [LiteralParser ''a'', SequenceParser [0]] ! 1 = SequenceParser [0]
 \<and> parse 1 [LiteralParser ''a'', SequenceParser [0]] 0 ''b'' True = Some (Inr FAILED)
 \<and> parse 2 [LiteralParser ''a'', SequenceParser [0]] 1 ''b'' True
      = Some (Inr (ParseResult (Some 1) (Results [])))
 \<and> ParseResult (Some 1) (Results []) \<noteq> FAILED"
proof -
  let ?h = "[LiteralParser ''a'', SequenceParser [0]]"
  have a: "(1::nat) < length ?h" by simp
  have b: "?h ! 1 = SequenceParser [0]" by simp
  have f: "parse 1 ?h 0 ''b'' True = Some (Inr FAILED)" by (simp add: literal_parse_def)
  have c: "parse 2 ?h 1 ''b'' True = Some (Inr (ParseResult (Some 1) (Results [])))"
    by (simp add: eval_nat_numeral literal_parse_def sequence_finish_def)
  from sequence_partial_never_fails[OF a b c] a b f c show ?thesis by blast
qed

text \<open>
  C10. A combinator on which \<open>define\<close> was never called has no children, and its
  \<open>parse\<close> returns without raising: a \<open>GroupParser\<close> returns the sentinel for every
  text and mode; a \<open>SequenceParser\<close> returns a success with no children in partial mode
  and, in total mode, that success when the text is empty and the sentinel otherwise.
\<close>

theorem undefined_combinators:
  "(case new_GroupParser h of (h', g) \<Rightarrow>
      h' ! g = GroupParser [] \<and> parse (Suc n) h' g text partially = Some (Inr FAILED))
 \<and> (case new_SequenceParser h of (h', s) \<Rightarrow>
      h' ! s = SequenceParser []
    \<and> parse (Suc n) h' s text True = Some (Inr (ParseResult (Some s) (Results [])))
    \<and> parse (Suc n) h' s text False =
        Some (Inr (if text = [] then ParseResult (Some s) (Results []) else FAILED))
    \<and> ParseResult (Some s) (Results []) \<noteq> FAILED)"
  by (simp add: new_GroupParser_def new_SequenceParser_def new_parser_def sequence_finish_def
      FAILED_def)

theorem undefined_combinators_witness:
  "parse (Suc 0) (fst (new_GroupParser [])) (snd (new_GroupParser [])) ''ab'' True
      = Some (Inr FAILED)
 \<and> parse (Suc 0) (fst (new_SequenceParser [])) (snd (new_SequenceParser [])) ''ab'' True
      = Some (Inr (ParseResult (Some 0) (Results [])))
 \<and> parse (Suc 0) (fst (new_SequenceParser [])) (snd (new_SequenceParser [])) ''ab'' False
      = Some (Inr FAILED)
 \<and> parse (Suc 0) (fst (new_SequenceParser [])) (snd (new_SequenceParser [])) [] False
      = Some (Inr (ParseResult (Some 0) (Results [])))"
  using undefined_combinators[of 0 "''ab''" True "[]"]
        undefined_combinators[of 0 "''ab''" False "[]"]
        undefined_combinators[of 0 "[]" False "[]"]
  by (simp add: new_GroupParser_def new_SequenceParser_def new_parser_def)

end
